theory Spec2Isabelle
  imports Complex_Main "HOL-Library.Word"
begin

section \<open>Data model\<close>

text \<open>
  The module \<^verbatim>\<open>qwen_api_inference.py\<close> defines one class, \<^verbatim>\<open>QwenAPIInference\<close>.
  Its methods are embedded below under their own names. Everything the class consumes from
  outside the repository (the file system, the image library, the HTTP library, the JSON
  library, \<^verbatim>\<open>os.path.abspath\<close>, base64 and double-precision arithmetic) is a field
  of the record \<open>env\<close>; the theorems hold for every such environment.
\<close>

text \<open>Decoded JSON values, as Python holds them (a dict keeps its keys in order).\<close>

datatype json =
    JNull
  | JBool bool
  | JInt int
  | JFloat string
  | JStr string
  | JList "json list"
  | JDict "(string \<times> json) list"

text \<open>
  The exceptions that can travel through the class. \<open>RequestException\<close> is the one
  class named by the \<^verbatim>\<open>except\<close> clause of \<^verbatim>\<open>inference\<close>; the argument is
  \<^verbatim>\<open>str(e)\<close>.
\<close>

datatype exn =
    FileNotFoundError string
  | UnidentifiedImageError string
  | OSError string
  | ValueError string
  | ZeroDivisionError
  | KeyError string
  | IndexError
  | TypeError
  | AttributeError
  | RequestException string

type_synonym bytes = "8 word list"

record image =
  width :: int
  height :: int

text \<open>One element of \<^verbatim>\<open>input_data\<close>: a dict whose two keys may each be absent.\<close>

record item =
  file_path :: "string list option"
  text_input :: "string option"

record request =
  url :: string
  headers :: "(string \<times> string) list"
  payload :: json

text \<open>
  What \<^verbatim>\<open>requests.post\<close> hands back: the status code, the text of the
  \<^verbatim>\<open>HTTPError\<close> that \<^verbatim>\<open>raise_for_status\<close> would raise, and the outcome of
  \<^verbatim>\<open>response.json()\<close> (\<open>Inl\<close> is the text of its decode error).
\<close>

record response =
  status_code :: nat
  http_error :: string
  body :: "string + json"

text \<open>An element of the returned list: a string, or the dict \<^verbatim>\<open>{"error": msg}\<close>.\<close>

datatype result = Text string | ErrorObj string

record env =
  api_url :: string
  api_key :: string
  abspath :: "string \<Rightarrow> string"
  image_open :: "string \<Rightarrow> exn + image"
  image_resize :: "image \<Rightarrow> int \<times> int \<Rightarrow> exn + image"
  read_bytes :: "string \<Rightarrow> exn + bytes"
  b64encode :: "bytes \<Rightarrow> string"
  post :: "nat \<Rightarrow> request \<Rightarrow> string + response"
  json_loads :: "string \<Rightarrow> string + json"
  json_dumps :: "json \<Rightarrow> string"
  fround :: "real \<Rightarrow> real"
  get_simple_json :: result

text \<open>The observable actions of a call, in the order they happen.\<close>

datatype event = ImageOpened string | FileRead string | Posted request

section \<open>String operations of Python used by the class\<close>

text \<open>\<^verbatim>\<open>s.find(sub)\<close>: the lowest index at which \<open>sub\<close> occurs, \<open>None\<close> for -1.\<close>

fun find_sub :: "string \<Rightarrow> string \<Rightarrow> nat option" where
  "find_sub sub [] = (if sub = [] then Some 0 else None)"
| "find_sub sub (c # cs) =
     (if take (length sub) (c # cs) = sub then Some 0
      else map_option Suc (find_sub sub cs))"

text \<open>\<^verbatim>\<open>s.find(sub, start)\<close> for a start index inside the string.\<close>

definition find_from :: "string \<Rightarrow> string \<Rightarrow> nat \<Rightarrow> nat option" where
  "find_from s sub start =
     (if start > length s then None
      else map_option (\<lambda>i. i + start) (find_sub sub (drop start s)))"

text \<open>The string \<open>sub\<close> occurs in \<open>s\<close> at index \<open>i\<close>.\<close>

definition occurs_at :: "string \<Rightarrow> string \<Rightarrow> nat \<Rightarrow> bool" where
  "occurs_at sub s i = (i + length sub \<le> length s \<and> take (length sub) (drop i s) = sub)"

text \<open>\<^verbatim>\<open>s[a:b]\<close> for non-negative indices.\<close>

definition slice :: "string \<Rightarrow> nat \<Rightarrow> nat \<Rightarrow> string" where
  "slice s a b = take (b - a) (drop a s)"

definition strip_chars :: "char set \<Rightarrow> string \<Rightarrow> string" where
  "strip_chars cs s = rev (dropWhile (\<lambda>c. c \<in> cs) (rev (dropWhile (\<lambda>c. c \<in> cs) s)))"

text \<open>The characters below U+0100 for which \<^verbatim>\<open>str.isspace\<close> holds.\<close>

definition whitespace :: "char set" where
  "whitespace = {CHR 0x09, CHR 0x0A, CHR 0x0B, CHR 0x0C, CHR 0x0D,
                 CHR 0x1C, CHR 0x1D, CHR 0x1E, CHR 0x1F, CHR 0x20, CHR 0x85, CHR 0xA0}"

definition strip :: "string \<Rightarrow> string" where
  "strip s = strip_chars whitespace s"

definition replace_char :: "char \<Rightarrow> char \<Rightarrow> string \<Rightarrow> string" where
  "replace_char a b s = map (\<lambda>c. if c = a then b else c) s"

section \<open>process_response\<close>

definition fence_open :: string where
  "fence_open = ''```json''"

text \<open>
  Lines 47 to 51: the value of the variable \<^verbatim>\<open>output_text\<close> after the fence step. The
  variable is reassigned only when both fences are found.
\<close>

definition fence_step :: "string \<Rightarrow> string" where
  "fence_step output_text =
     (case find_sub fence_open output_text of
        None \<Rightarrow> output_text
      | Some i \<Rightarrow>
          (let json_start = i + 7 in
           case find_from output_text ''```'' json_start of
             None \<Rightarrow> output_text
           | Some json_end \<Rightarrow> strip (slice output_text json_start json_end)))"

text \<open>Lines 54 to 57.\<close>

definition clean_text :: "string \<Rightarrow> string" where
  "clean_text output_text =
     replace_char (CHR 0x27) (CHR 0x22)
       (strip_chars {CHR ''['', CHR '']'', CHR 0x27} output_text)"

text \<open>
  The whole method. The \<^verbatim>\<open>except\<close> branch returns the variable
  \<^verbatim>\<open>output_text\<close>, which by then holds the value of the fence step.
\<close>

definition process_response :: "env \<Rightarrow> string \<Rightarrow> string" where
  "process_response env output_text =
     (let output_text' = fence_step output_text;
          cleaned_text = clean_text output_text'
      in case json_loads env cleaned_text of
           Inr formatted_json \<Rightarrow> json_dumps env formatted_json
         | Inl e \<Rightarrow> output_text')"

section \<open>_extract_file_paths\<close>

definition extract_file_paths :: "(string \<Rightarrow> string) \<Rightarrow> item list \<Rightarrow> string list" where
  "extract_file_paths ap input_data =
     concat (map (\<lambda>data. map ap (case file_path data of None \<Rightarrow> [] | Some ps \<Rightarrow> ps))
                 input_data)"

section \<open>image_to_data_url and load_image_data\<close>

definition image_to_data_url :: "env \<Rightarrow> string \<Rightarrow> exn + string" where
  "image_to_data_url env image_path =
     (case read_bytes env image_path of
        Inl e \<Rightarrow> Inl e
      | Inr raw \<Rightarrow> Inr (''data:image/jpeg;base64,'' @ b64encode env raw))"

text \<open>\<^verbatim>\<open>int(x)\<close> on a float: truncation towards zero.\<close>

definition py_int :: "real \<Rightarrow> int" where
  "py_int x = (if 0 \<le> x then \<lfloor>x\<rfloor> else \<lceil>x\<rceil>)"

text \<open>
  Lines 78 to 80. The three float operations (\<^verbatim>\<open>width / height\<close>,
  \<^verbatim>\<open>max_height * aspect_ratio\<close>, \<^verbatim>\<open>max_width / aspect_ratio\<close>) are the exact
  operations followed by the rounding \<open>rnd\<close> of the float format; a division by zero
  raises.
\<close>

definition new_dimensions ::
  "(real \<Rightarrow> real) \<Rightarrow> int \<Rightarrow> int \<Rightarrow> int \<Rightarrow> int \<Rightarrow> exn + int \<times> int" where
  "new_dimensions rnd w h max_width max_height =
     (if h = 0 then Inl ZeroDivisionError
      else
        let aspect_ratio = rnd (real_of_int w / real_of_int h);
            new_width = min max_width (py_int (rnd (real_of_int max_height * aspect_ratio)))
        in if aspect_ratio = 0 then Inl ZeroDivisionError
           else Inr (new_width,
                     min max_height (py_int (rnd (real_of_int max_width / aspect_ratio)))))"

definition load_image_data ::
  "env \<Rightarrow> string \<Rightarrow> int \<Rightarrow> int \<Rightarrow> exn + image \<times> int \<times> int" where
  "load_image_data env image_filepath max_width max_height =
     (case image_open env image_filepath of
        Inl e \<Rightarrow> Inl e
      | Inr img \<Rightarrow>
          if width img > max_width \<or> height img > max_height then
            (case new_dimensions (fround env) (width img) (height img) max_width max_height of
               Inl e \<Rightarrow> Inl e
             | Inr (new_width, new_height) \<Rightarrow>
                 (case image_resize env img (new_width, new_height) of
                    Inl e \<Rightarrow> Inl e
                  | Inr img' \<Rightarrow> Inr (img', new_width, new_height)))
          else Inr (img, width img, height img))"

section \<open>inference\<close>

definition then_do :: "exn + 'a \<Rightarrow> ('a \<Rightarrow> exn + 'b) \<Rightarrow> exn + 'b" where
  "then_do m f = (case m of Inl e \<Rightarrow> Inl e | Inr x \<Rightarrow> f x)"

text \<open>\<^verbatim>\<open>v[k]\<close> for a string key and \<^verbatim>\<open>v[0]\<close>, on a decoded JSON value.\<close>

fun subscript_key :: "json \<Rightarrow> string \<Rightarrow> exn + json" where
  "subscript_key (JDict kvs) k =
     (case map_of kvs k of None \<Rightarrow> Inl (KeyError k) | Some v \<Rightarrow> Inr v)"
| "subscript_key _ k = Inl TypeError"

fun subscript_zero :: "json \<Rightarrow> exn + json" where
  "subscript_zero (JList []) = Inl IndexError"
| "subscript_zero (JList (v # _)) = Inr v"
| "subscript_zero (JStr []) = Inl IndexError"
| "subscript_zero (JStr (c # _)) = Inr (JStr [c])"
| "subscript_zero (JDict kvs) = Inl (KeyError ''0'')"
| "subscript_zero _ = Inl TypeError"

text \<open>Line 141: \<^verbatim>\<open>response_json["choices"][0]["message"]["content"]\<close>.\<close>

definition content_of :: "json \<Rightarrow> exn + json" where
  "content_of response_json =
     then_do (subscript_key response_json ''choices'') (\<lambda>choices.
     then_do (subscript_zero choices) (\<lambda>choice.
     then_do (subscript_key choice ''message'') (\<lambda>message.
     subscript_key message ''content'')))"

text \<open>
  \<^verbatim>\<open>process_response\<close> applied to whatever value the content field holds. Only a
  string has \<^verbatim>\<open>find\<close> and \<^verbatim>\<open>strip\<close>; the test \<^verbatim>\<open>"```json" in output_text\<close>
  raises on a value that is not a container.
\<close>

fun process_response_value :: "env \<Rightarrow> json \<Rightarrow> exn + string" where
  "process_response_value env (JStr s) = Inr (process_response env s)"
| "process_response_value env (JList xs) = Inl AttributeError"
| "process_response_value env (JDict kvs) = Inl AttributeError"
| "process_response_value env _ = Inl TypeError"

definition raise_for_status :: "response \<Rightarrow> exn + unit" where
  "raise_for_status r =
     (if 400 \<le> status_code r \<and> status_code r < 600
      then Inl (RequestException (http_error r)) else Inr ())"

definition response_json :: "response \<Rightarrow> exn + json" where
  "response_json r =
     (case body r of Inl detail \<Rightarrow> Inl (RequestException detail) | Inr v \<Rightarrow> Inr v)"

definition system_prompt :: string where
  "system_prompt = ''You are an expert at extracting structured text from image documents. Please provide the extracted information in JSON format.''"

text \<open>Lines 109 to 132: the messages, the payload and the headers.\<close>

definition build_request :: "env \<Rightarrow> string \<Rightarrow> string \<Rightarrow> request" where
  "build_request env text image_data_url =
     \<lparr> url = api_url env,
       headers = [(''Authorization'', ''Bearer '' @ api_key env),
                  (''Content-Type'', ''application/json'')],
       payload = JDict
         [(''model'', JStr ''qwen/qwen2.5-vl-72b-instruct:free''),
          (''messages'', JList
            [JDict [(''role'', JStr ''system''), (''content'', JStr system_prompt)],
             JDict [(''role'', JStr ''user''),
                    (''content'', JList
                      [JDict [(''type'', JStr ''text''), (''text'', JStr text)],
                       JDict [(''type'', JStr ''image_url''),
                              (''image_url'', JDict [(''url'', JStr image_data_url)])]])]])] \<rparr>"

text \<open>Lines 136 to 142, the body of the \<^verbatim>\<open>try\<close>; \<open>n\<close> counts the requests sent before.\<close>

definition try_body :: "env \<Rightarrow> nat \<Rightarrow> request \<Rightarrow> exn + string" where
  "try_body env n req =
     (case post env n req of
        Inl detail \<Rightarrow> Inl (RequestException detail)
      | Inr resp \<Rightarrow>
          then_do (raise_for_status resp) (\<lambda>_.
          then_do (response_json resp) (\<lambda>rj.
          then_do (content_of rj) (\<lambda>output_text.
          process_response_value env output_text))))"

text \<open>Line 117: \<^verbatim>\<open>input_data[0]["text_input"]\<close>.\<close>

definition first_text_input :: "item list \<Rightarrow> exn + string" where
  "first_text_input input_data =
     (case input_data of
        [] \<Rightarrow> Inl IndexError
      | d # _ \<Rightarrow> (case text_input d of None \<Rightarrow> Inl (KeyError ''text_input'') | Some t \<Rightarrow> Inr t))"

text \<open>
  One iteration of the loop of lines 101 to 150, for the \<open>n\<close>-th path of the worklist:
  the actions attempted, and either the element appended to \<^verbatim>\<open>results\<close> or the
  exception that leaves the loop.
\<close>

definition process_item :: "env \<Rightarrow> item list \<Rightarrow> nat \<Rightarrow> string \<Rightarrow> event list \<times> (exn + result)" where
  "process_item env input_data n path =
     (case load_image_data env path 1250 1750 of
        Inl e \<Rightarrow> ([ImageOpened path], Inl e)
      | Inr loaded \<Rightarrow>
          (case image_to_data_url env path of
             Inl e \<Rightarrow> ([ImageOpened path, FileRead path], Inl e)
           | Inr image_data_url \<Rightarrow>
               (case first_text_input input_data of
                  Inl e \<Rightarrow> ([ImageOpened path, FileRead path], Inl e)
                | Inr text \<Rightarrow>
                    (let req = build_request env text image_data_url
                     in ([ImageOpened path, FileRead path, Posted req],
                         (case try_body env n req of
                            Inr processed_response \<Rightarrow> Inr (Text processed_response)
                          | Inl (RequestException detail) \<Rightarrow>
                              Inr (ErrorObj (''Qwen API error for '' @ path @ '': '' @ detail))
                          | Inl e \<Rightarrow> Inl e))))))"

fun inference_loop ::
  "env \<Rightarrow> item list \<Rightarrow> string list \<Rightarrow> event list \<Rightarrow> result list
     \<Rightarrow> event list \<times> (exn + result list)" where
  "inference_loop env input_data [] trace results = (trace, Inr results)"
| "inference_loop env input_data (path # rest) trace results =
     (case process_item env input_data (length results) path of
        (evs, Inl e) \<Rightarrow> (trace @ evs, Inl e)
      | (evs, Inr r) \<Rightarrow> inference_loop env input_data rest (trace @ evs) (results @ [r]))"

definition inference ::
  "env \<Rightarrow> item list \<Rightarrow> string option \<Rightarrow> event list \<times> (exn + result list)" where
  "inference env input_data mode =
     (if mode = Some ''static'' then ([], Inr [get_simple_json env])
      else inference_loop env input_data (extract_file_paths (abspath env) input_data) [] [])"

section \<open>Rounding of the float operations\<close>

text \<open>
  The rounding \<open>rnd\<close> returns \<open>x\<close> with relative error at most \<open>eps\<close>. For IEEE
  double precision, rounding to nearest, \<open>eps\<close> is \<open>2 ^ -53\<close> on the normal range.
\<close>

definition accurate :: "real \<Rightarrow> (real \<Rightarrow> real) \<Rightarrow> real \<Rightarrow> bool" where
  "accurate eps rnd x = (\<bar>rnd x - x\<bar> \<le> eps * \<bar>x\<bar>)"

text \<open>
  The three float operations of \<^verbatim>\<open>load_image_data\<close> on a \<open>w\<close> by \<open>h\<close> image are
  accurate within \<open>eps\<close>, and \<open>eps\<close> is small against the two bounds.
\<close>

definition rounding_ok :: "real \<Rightarrow> (real \<Rightarrow> real) \<Rightarrow> int \<Rightarrow> int \<Rightarrow> int \<Rightarrow> int \<Rightarrow> bool" where
  "rounding_ok eps rnd w h max_width max_height =
     (0 \<le> eps \<and> 3 * eps * real_of_int max_width \<le> 1 \<and> 3 * eps * real_of_int max_height \<le> 1 \<and>
      accurate eps rnd (real_of_int w / real_of_int h) \<and>
      accurate eps rnd (real_of_int max_height * rnd (real_of_int w / real_of_int h)) \<and>
      accurate eps rnd (real_of_int max_width / rnd (real_of_int w / real_of_int h)))"

text \<open>And \<open>eps\<close> is small against the products of a bound and a dimension.\<close>

definition rounding_fine :: "real \<Rightarrow> int \<Rightarrow> int \<Rightarrow> int \<Rightarrow> int \<Rightarrow> bool" where
  "rounding_fine eps w h max_width max_height =
     (2 * eps * real_of_int (max_width * h) \<le> 1 \<and> 2 * eps * real_of_int (max_height * w) \<le> 1)"

section \<open>A concrete environment\<close>

text \<open>
  An environment on which the methods can be run: a file system with three files, an image
  library that knows the sizes of two of them, a server that answers the first request with
  a fenced JSON text, refuses the second connection and answers every later request with
  plain prose, base64 as in RFC 4648, double-precision rounding, and the JSON decoder and
  encoder below.
\<close>

subsection \<open>base64\<close>

definition b64_alphabet :: string where
  "b64_alphabet = ''ABCDEFGHIJKLMNOPQRSTUVWXYZabcdefghijklmnopqrstuvwxyz0123456789+/''"

definition b64_char :: "nat \<Rightarrow> char" where
  "b64_char n = b64_alphabet ! (n mod 64)"

fun base64 :: "bytes \<Rightarrow> string" where
  "base64 [] = []"
| "base64 [a] =
     (let n = unat a * 65536
      in [b64_char (n div 262144), b64_char (n div 4096), CHR ''='', CHR ''=''])"
| "base64 [a, b] =
     (let n = unat a * 65536 + unat b * 256
      in [b64_char (n div 262144), b64_char (n div 4096), b64_char (n div 64), CHR ''=''])"
| "base64 (a # b # c # rest) =
     (let n = unat a * 65536 + unat b * 256 + unat c
      in [b64_char (n div 262144), b64_char (n div 4096), b64_char (n div 64), b64_char n]
         @ base64 rest)"

subsection \<open>Rounding to double precision\<close>

text \<open>
  Rounding to 53 significant bits, to nearest, ties to even, for values in the normal range
  of the format.
\<close>

fun bitlen :: "nat \<Rightarrow> nat" where
  "bitlen n = (if n = 0 then 0 else Suc (bitlen (n div 2)))"

definition round_half_even :: "real \<Rightarrow> int" where
  "round_half_even x =
     (let f = \<lfloor>x\<rfloor>; d = x - of_int f
      in if d < 1 / 2 then f else if 1 / 2 < d then f + 1 else if even f then f else f + 1)"

definition binade :: "real \<Rightarrow> int" where
  "binade a = (if 1 \<le> a then int (bitlen (nat \<lfloor>a\<rfloor>)) - 1 else - int (bitlen (nat \<lfloor>1 / a\<rfloor>)))"

definition ulp :: "real \<Rightarrow> real" where
  "ulp a = (let e = binade a in if 52 \<le> e then 2 ^ nat (e - 52) else 1 / 2 ^ nat (52 - e))"

definition fl64 :: "real \<Rightarrow> real" where
  "fl64 x = (if x = 0 then 0 else sgn x * of_int (round_half_even (\<bar>x\<bar> / ulp \<bar>x\<bar>)) * ulp \<bar>x\<bar>)"

subsection \<open>A JSON decoder and encoder\<close>

text \<open>
  The decoder reads the JSON texts built from objects, arrays, strings without escape
  sequences, integers and the literals \<^verbatim>\<open>true\<close>, \<^verbatim>\<open>false\<close> and \<^verbatim>\<open>null\<close>, one
  character at a time with an explicit stack, and reports a decode error on every other
  text. A repeated key keeps its first position and its last value. The encoder writes a
  value as \<^verbatim>\<open>json.dumps(v, indent=2)\<close> does.
\<close>

datatype frame = ArrF "json list" | ObjF "(string \<times> json) list" | ObjV "(string \<times> json) list" string

datatype mode =
    Value | ValueOrEnd | KeyOrEnd | Key | Colon string | After
  | Str string bool | Num bool string | Lit string json

type_synonym pstate = "mode \<times> frame list \<times> json option"

fun dict_set :: "string \<Rightarrow> json \<Rightarrow> (string \<times> json) list \<Rightarrow> (string \<times> json) list" where
  "dict_set k v [] = [(k, v)]"
| "dict_set k v ((k', v') # kvs) = (if k = k' then (k, v) # kvs else (k', v') # dict_set k v kvs)"

fun put :: "json \<Rightarrow> frame list \<Rightarrow> pstate option" where
  "put v [] = Some (After, [], Some v)"
| "put v (ArrF xs # st) = Some (After, ArrF (xs @ [v]) # st, None)"
| "put v (ObjV kvs k # st) = Some (After, ObjF (dict_set k v kvs) # st, None)"
| "put v (ObjF kvs # st) = None"

definition json_ws :: "char \<Rightarrow> bool" where
  "json_ws c = (c = CHR '' '' \<or> c = CHR 0x09 \<or> c = CHR 0x0A \<or> c = CHR 0x0D)"

definition is_digit :: "char \<Rightarrow> bool" where
  "is_digit c = (48 \<le> (of_char c :: nat) \<and> (of_char c :: nat) \<le> 57)"

definition digits_value :: "string \<Rightarrow> int" where
  "digits_value ds = foldl (\<lambda>n c. 10 * n + (int (of_char c) - 48)) 0 ds"

definition start_value :: "char \<Rightarrow> frame list \<Rightarrow> pstate option" where
  "start_value c st =
     (if c = CHR ''['' then Some (ValueOrEnd, ArrF [] # st, None)
      else if c = CHR ''{'' then Some (KeyOrEnd, ObjF [] # st, None)
      else if c = CHR 0x22 then Some (Str [] False, st, None)
      else if c = CHR ''-'' then Some (Num True [], st, None)
      else if is_digit c then Some (Num False [c], st, None)
      else if c = CHR ''t'' then Some (Lit ''rue'' (JBool True), st, None)
      else if c = CHR ''f'' then Some (Lit ''alse'' (JBool False), st, None)
      else if c = CHR ''n'' then Some (Lit ''ull'' JNull, st, None)
      else None)"

definition after_value :: "char \<Rightarrow> frame list \<Rightarrow> json option \<Rightarrow> pstate option" where
  "after_value c st fin =
     (if json_ws c then Some (After, st, fin)
      else case st of
        ArrF xs # st' \<Rightarrow>
          (if c = CHR '','' then Some (Value, st, None)
           else if c = CHR '']'' then put (JList xs) st' else None)
      | ObjF kvs # st' \<Rightarrow>
          (if c = CHR '','' then Some (Key, st, None)
           else if c = CHR ''}'' then put (JDict kvs) st' else None)
      | _ \<Rightarrow> None)"

definition finish_number :: "bool \<Rightarrow> string \<Rightarrow> json" where
  "finish_number neg ds = JInt (if neg then - digits_value ds else digits_value ds)"

fun step :: "char \<Rightarrow> pstate \<Rightarrow> pstate option" where
  "step c (Value, st, fin) = (if json_ws c then Some (Value, st, fin) else start_value c st)"
| "step c (ValueOrEnd, st, fin) =
     (if json_ws c then Some (ValueOrEnd, st, fin)
      else if c = CHR '']'' then (case st of ArrF xs # st' \<Rightarrow> put (JList xs) st' | _ \<Rightarrow> None)
      else start_value c st)"
| "step c (KeyOrEnd, st, fin) =
     (if json_ws c then Some (KeyOrEnd, st, fin)
      else if c = CHR ''}'' then (case st of ObjF kvs # st' \<Rightarrow> put (JDict kvs) st' | _ \<Rightarrow> None)
      else if c = CHR 0x22 then Some (Str [] True, st, fin)
      else None)"
| "step c (Key, st, fin) =
     (if json_ws c then Some (Key, st, fin)
      else if c = CHR 0x22 then Some (Str [] True, st, fin)
      else None)"
| "step c (Colon k, st, fin) =
     (if json_ws c then Some (Colon k, st, fin)
      else if c = CHR '':'' then
        (case st of ObjF kvs # st' \<Rightarrow> Some (Value, ObjV kvs k # st', fin) | _ \<Rightarrow> None)
      else None)"
| "step c (After, st, fin) = after_value c st fin"
| "step c (Str acc is_key, st, fin) =
     (if c = CHR 0x22 then (if is_key then Some (Colon acc, st, fin) else put (JStr acc) st)
      else if c = CHR 0x5C \<or> (of_char c :: nat) < 32 then None
      else Some (Str (acc @ [c]) is_key, st, fin))"
| "step c (Num neg ds, st, fin) =
     (if is_digit c then (if ds = ''0'' then None else Some (Num neg (ds @ [c]), st, fin))
      else if ds = [] then None
      else (case put (finish_number neg ds) st of
              None \<Rightarrow> None
            | Some (m, st', fin') \<Rightarrow> after_value c st' fin'))"
| "step c (Lit rest v, st, fin) =
     (case rest of
        [] \<Rightarrow> None
      | d # ds \<Rightarrow> if c \<noteq> d then None else if ds = [] then put v st else Some (Lit ds v, st, fin))"

fun run :: "pstate \<Rightarrow> string \<Rightarrow> pstate option" where
  "run s [] = Some s"
| "run s (c # cs) = (case step c s of None \<Rightarrow> None | Some s' \<Rightarrow> run s' cs)"

definition decode :: "string \<Rightarrow> string + json" where
  "decode s =
     (case run (Value, [], None) s of
        Some (After, [], Some v) \<Rightarrow> Inr v
      | Some (Num neg ds, [], None) \<Rightarrow>
          (if ds = [] then Inl ''Expecting value'' else Inr (finish_number neg ds))
      | _ \<Rightarrow> Inl ''Expecting value'')"

definition hex_digit :: "nat \<Rightarrow> char" where
  "hex_digit n = ''0123456789abcdef'' ! (n mod 16)"

definition escape_char :: "char \<Rightarrow> string" where
  "escape_char c =
     (if c = CHR 0x22 then [CHR 0x5C, CHR 0x22]
      else if c = CHR 0x5C then [CHR 0x5C, CHR 0x5C]
      else if c = CHR 0x0A then [CHR 0x5C, CHR ''n'']
      else if c = CHR 0x0D then [CHR 0x5C, CHR ''r'']
      else if c = CHR 0x09 then [CHR 0x5C, CHR ''t'']
      else if c = CHR 0x08 then [CHR 0x5C, CHR ''b'']
      else if c = CHR 0x0C then [CHR 0x5C, CHR ''f'']
      else if (of_char c :: nat) < 32 \<or> 127 < (of_char c :: nat) then
        [CHR 0x5C, CHR ''u'', CHR ''0'', CHR ''0'',
         hex_digit ((of_char c :: nat) div 16), hex_digit (of_char c :: nat)]
      else [c])"

definition quote :: "string \<Rightarrow> string" where
  "quote s = [CHR 0x22] @ concat (map escape_char s) @ [CHR 0x22]"

fun show_nat :: "nat \<Rightarrow> string" where
  "show_nat n = (if n < 10 then [char_of (48 + n)] else show_nat (n div 10) @ [char_of (48 + n mod 10)])"

definition show_int :: "int \<Rightarrow> string" where
  "show_int i = (if i < 0 then CHR ''-'' # show_nat (nat (- i)) else show_nat (nat i))"

fun join :: "string \<Rightarrow> string list \<Rightarrow> string" where
  "join sep [] = []"
| "join sep [x] = x"
| "join sep (x # y # ys) = x @ sep @ join sep (y # ys)"

definition pad :: "nat \<Rightarrow> string" where
  "pad n = replicate (2 * n) (CHR '' '')"

fun encode :: "nat \<Rightarrow> json \<Rightarrow> string" where
  "encode n JNull = ''null''"
| "encode n (JBool b) = (if b then ''true'' else ''false'')"
| "encode n (JInt i) = show_int i"
| "encode n (JFloat s) = s"
| "encode n (JStr s) = quote s"
| "encode n (JList xs) =
     (if xs = [] then ''[]''
      else ''['' @ [CHR 0x0A] @ pad (Suc n)
           @ join ('','' @ [CHR 0x0A] @ pad (Suc n)) (map (encode (Suc n)) xs)
           @ [CHR 0x0A] @ pad n @ '']'')"
| "encode n (JDict kvs) =
     (if kvs = [] then ''{}''
      else ''{'' @ [CHR 0x0A] @ pad (Suc n)
           @ join ('','' @ [CHR 0x0A] @ pad (Suc n))
               (map (\<lambda>kv. quote (fst kv) @ '': '' @ encode (Suc n) (snd kv)) kvs)
           @ [CHR 0x0A] @ pad n @ ''}'')"


subsection \<open>Files, images and the server\<close>

text \<open>
  \<open>test_abspath\<close> is \<^verbatim>\<open>os.path.abspath\<close> on normalised paths, with the working
  directory \<^verbatim>\<open>/work\<close>.
\<close>

definition test_abspath :: "string \<Rightarrow> string" where
  "test_abspath p = (case p of [] \<Rightarrow> ''/work'' | c # _ \<Rightarrow> if c = CHR ''/'' then p else ''/work/'' @ p)"

definition test_files :: "string \<Rightarrow> bytes option" where
  "test_files p =
     (if p = ''/data/invoice.png'' then Some [0x89, 0x50, 0x4E, 0x47, 0x01]
      else if p = ''/data/wide.png'' then Some [0x89, 0x50, 0x4E, 0x47, 0x02, 0x03]
      else if p = ''/data/notes.txt'' then Some [0x68, 0x69]
      else None)"

definition test_image_open :: "string \<Rightarrow> exn + image" where
  "test_image_open p =
     (if test_files p = None then Inl (FileNotFoundError p)
      else if p = ''/data/invoice.png'' then Inr \<lparr>width = 800, height = 600\<rparr>
      else if p = ''/data/wide.png'' then Inr \<lparr>width = 2500, height = 14\<rparr>
      else Inl (UnidentifiedImageError p))"

definition test_image_resize :: "image \<Rightarrow> int \<times> int \<Rightarrow> exn + image" where
  "test_image_resize img dims =
     (if fst dims < 1 \<or> snd dims < 1 then Inl (ValueError ''height and width must be > 0'')
      else Inr \<lparr>width = fst dims, height = snd dims\<rparr>)"

definition test_read_bytes :: "string \<Rightarrow> exn + bytes" where
  "test_read_bytes p = (case test_files p of None \<Rightarrow> Inl (FileNotFoundError p) | Some raw \<Rightarrow> Inr raw)"

definition reply :: "string \<Rightarrow> response" where
  "reply content =
     \<lparr>status_code = 200, http_error = [],
      body = Inr (JDict [(''choices'',
               JList [JDict [(''message'',
                 JDict [(''role'', JStr ''assistant''), (''content'', JStr content)])]])])\<rparr>"

definition test_post :: "nat \<Rightarrow> request \<Rightarrow> string + response" where
  "test_post n req =
     (if n = 0 then Inr (reply (''Here is the result:'' @ [CHR 0x0A] @ ''```json'' @ [CHR 0x0A]
                                @ ''{'' @ [CHR 0x27] @ ''total'' @ [CHR 0x27] @ '': 42}''
                                @ [CHR 0x0A] @ ''```''))
      else if n = 1 then Inl ''Connection refused''
      else Inr (reply ''not json at all''))"

definition test_env :: env where
  "test_env =
     \<lparr>api_url = ''https://api.example/v1/chat/completions'',
      api_key = ''sk-test'',
      abspath = test_abspath,
      image_open = test_image_open,
      image_resize = test_image_resize,
      read_bytes = test_read_bytes,
      b64encode = base64,
      post = test_post,
      json_loads = decode,
      json_dumps = encode 0,
      fround = fl64,
      get_simple_json = Text ''{}''\<rparr>"

definition batch3 :: "item list" where
  "batch3 =
     [\<lparr>file_path = Some [''/data/invoice.png'', ''/data/wide.png''], text_input = Some ''extract''\<rparr>,
      \<lparr>file_path = None, text_input = Some ''ignored''\<rparr>,
      \<lparr>file_path = Some [''/data/invoice.png''], text_input = None\<rparr>]"

section \<open>Theorems\<close>

lemma extract_file_paths_Cons:
  "extract_file_paths ap (d # ds) =
     map ap (case file_path d of None \<Rightarrow> [] | Some ps \<Rightarrow> ps) @ extract_file_paths ap ds"
  by (simp add: extract_file_paths_def)

text \<open>
  C10. The worklist is built by a total function: an item without the key
  \<^verbatim>\<open>file_path\<close> contributes no path and raises nothing, and the worklist is the
  in-order concatenation, over the items that have the key, of their paths, each passed
  through \<^verbatim>\<open>os.path.abspath\<close>.
\<close>

theorem extract_file_paths_skips_missing:
  "extract_file_paths ap input_data =
     concat (map (\<lambda>d. map ap (the (file_path d)))
                 (filter (\<lambda>d. file_path d \<noteq> None) input_data))"
proof (induction input_data)
  case Nil
  show ?case by (simp add: extract_file_paths_def)
next
  case (Cons d ds)
  show ?case
  proof (cases "file_path d")
    case None
    then show ?thesis using Cons.IH by (simp add: extract_file_paths_Cons)
  next
    case (Some ps)
    then show ?thesis using Cons.IH by (simp add: extract_file_paths_Cons)
  qed
qed

subsection \<open>The fence step\<close>

lemma occurs_at_Cons_Suc: "occurs_at sub (c # cs) (Suc j) = occurs_at sub cs j"
  by (simp add: occurs_at_def)

lemma occurs_at_0: "occurs_at sub s 0 = (take (length sub) s = sub)"
  by (auto simp: occurs_at_def) (metis length_take min.absorb_iff2 nat_le_linear take_all)

lemma find_sub_Some:
  "find_sub sub s = Some i \<Longrightarrow> occurs_at sub s i \<and> (\<forall>j<i. \<not> occurs_at sub s j)"
proof (induction s arbitrary: i)
  case Nil
  then show ?case by (simp add: occurs_at_def split: if_splits)
next
  case (Cons c cs)
  show ?case
  proof (cases "take (length sub) (c # cs) = sub")
    case True
    with Cons.prems have "i = 0" by simp
    with True show ?thesis by (simp add: occurs_at_0)
  next
    case False
    with Cons.prems obtain k where k: "find_sub sub cs = Some k" and i: "i = Suc k"
      by auto
    from Cons.IH[OF k] have ih: "occurs_at sub cs k" "\<forall>j<k. \<not> occurs_at sub cs j" by auto
    have "\<forall>j<Suc k. \<not> occurs_at sub (c # cs) j"
    proof (intro allI impI)
      fix j assume "j < Suc k"
      then show "\<not> occurs_at sub (c # cs) j"
        using False ih(2) by (cases j) (auto simp: occurs_at_0 occurs_at_Cons_Suc)
    qed
    with ih(1) i show ?thesis by (simp add: occurs_at_Cons_Suc)
  qed
qed

lemma find_sub_None: "find_sub sub s = None \<Longrightarrow> \<not> occurs_at sub s j"
proof (induction s arbitrary: j)
  case Nil
  then show ?case by (auto simp: occurs_at_def split: if_splits)
next
  case (Cons c cs)
  then show ?case
    by (cases j) (auto simp: occurs_at_0 occurs_at_Cons_Suc split: if_splits)
qed

lemma occurs_at_drop: "a \<le> length s \<Longrightarrow> occurs_at sub (drop a s) k = occurs_at sub s (k + a)"
  by (auto simp: occurs_at_def add.commute)

lemma find_from_Some:
  assumes "find_from s sub a = Some e"
  shows "a \<le> e \<and> occurs_at sub s e \<and> (\<forall>j. a \<le> j \<and> j < e \<longrightarrow> \<not> occurs_at sub s j)"
proof -
  from assms have a: "a \<le> length s" by (auto simp: find_from_def split: if_splits)
  with assms obtain k where k: "find_sub sub (drop a s) = Some k" and e: "e = k + a"
    by (auto simp: find_from_def)
  from find_sub_Some[OF k] have o: "occurs_at sub (drop a s) k"
    and f: "\<forall>j<k. \<not> occurs_at sub (drop a s) j" by auto
  have "\<forall>j. a \<le> j \<and> j < e \<longrightarrow> \<not> occurs_at sub s j"
  proof (intro allI impI)
    fix j assume j: "a \<le> j \<and> j < e"
    then have "j - a < k" using e by linarith
    with f have "\<not> occurs_at sub (drop a s) (j - a)" by blast
    then show "\<not> occurs_at sub s j" using a j by (simp add: occurs_at_drop)
  qed
  with o e a show ?thesis by (simp add: occurs_at_drop)
qed

lemma find_from_None:
  assumes "find_from s sub a = None" and "a \<le> j"
  shows "\<not> occurs_at sub s j"
proof (cases "a \<le> length s")
  case True
  with assms(1) have "find_sub sub (drop a s) = None" by (simp add: find_from_def)
  from find_sub_None[OF this, of "j - a"] show ?thesis using True assms(2)
    by (simp add: occurs_at_drop)
next
  case False
  with assms(2) show ?thesis by (simp add: occurs_at_def)
qed

text \<open>
  C5, as the code has it. When the text contains the opening fence (first at index \<open>i\<close>)
  and a closing fence follows the opening one, the text carried forward is the slice between
  the opening fence and the first closing fence at or after its end, with surrounding
  whitespace stripped. When no closing fence follows, the text carried forward is the whole
  input, unchanged. In both cases the cleanup and the parse work on the text carried
  forward.
\<close>

theorem fence_step_cases:
  assumes "find_sub fence_open t = Some i"
  shows "(\<forall>e. find_from t ''```'' (i + 7) = Some e \<longrightarrow>
            fence_step t = strip (slice t (i + 7) e) \<and> i + 7 \<le> e \<and> occurs_at ''```'' t e \<and>
            (\<forall>j. i + 7 \<le> j \<and> j < e \<longrightarrow> \<not> occurs_at ''```'' t j)) \<and>
         (find_from t ''```'' (i + 7) = None \<longrightarrow>
            fence_step t = t \<and> (\<forall>j\<ge>i + 7. \<not> occurs_at ''```'' t j)) \<and>
         process_response env t =
           (case json_loads env (clean_text (fence_step t)) of
              Inr v \<Rightarrow> json_dumps env v | Inl e \<Rightarrow> fence_step t)"
proof (intro conjI allI impI)
  fix e assume e: "find_from t ''```'' (i + 7) = Some e"
  show "fence_step t = strip (slice t (i + 7) e)"
    using assms e by (simp add: fence_step_def)
  from find_from_Some[OF e] show "i + 7 \<le> e" "occurs_at ''```'' t e" by auto
  fix j assume "i + 7 \<le> j \<and> j < e"
  with find_from_Some[OF e] show "\<not> occurs_at ''```'' t j" by blast
next
  assume n: "find_from t ''```'' (i + 7) = None"
  show "fence_step t = t" using assms n by (simp add: fence_step_def)
  fix j assume "i + 7 \<le> j"
  with find_from_None[OF n] show "\<not> occurs_at ''```'' t j" by blast
next
  show "process_response env t =
           (case json_loads env (clean_text (fence_step t)) of
              Inr v \<Rightarrow> json_dumps env v | Inl e \<Rightarrow> fence_step t)"
    by (simp add: process_response_def Let_def split: sum.splits)
qed

theorem fence_step_cases_witness:
  "find_sub fence_open ''x```json {} ``` y'' = Some 1 \<and>
   find_from ''x```json {} ``` y'' ''```'' 8 = Some 12 \<and>
   fence_step ''x```json {} ``` y'' = strip (slice ''x```json {} ``` y'' 8 12) \<and>
   strip (slice ''x```json {} ``` y'' 8 12) = ''{}'' \<and>
   occurs_at ''```'' ''x```json {} ``` y'' 12"
proof -
  have h: "find_sub fence_open ''x```json {} ``` y'' = Some 1"
    by (simp add: fence_open_def)
  have e: "find_from ''x```json {} ``` y'' ''```'' (1 + 7) = Some 12"
    by (simp add: find_from_def)
  have s: "strip (slice ''x```json {} ``` y'' 8 12) = ''{}''"
    by (simp add: slice_def strip_def strip_chars_def whitespace_def)
  from fence_step_cases[OF h] e s h show ?thesis by simp
qed

text \<open>
  The claim as stated fails where the closing fence is missing: on the text
  \<^verbatim>\<open>```json{}\<close> the slice from the end of the opening fence would be \<^verbatim>\<open>{}\<close>,
  and the text carried forward is the whole input.
\<close>

theorem fence_step_unclosed_counterexample:
  "find_sub fence_open ''```json{}'' = Some 0 \<and>
   find_from ''```json{}'' ''```'' 7 = None \<and>
   drop 7 ''```json{}'' = ''{}'' \<and>
   fence_step ''```json{}'' = ''```json{}'' \<and>
   fence_step ''```json{}'' \<noteq> drop 7 ''```json{}''"
  by (simp add: fence_step_def fence_open_def find_from_def)

subsection \<open>The loop of inference\<close>

lemma inference_loop_returns:
  "inference_loop env d ps tr rs = (tr', Inr out) \<Longrightarrow>
     \<exists>rs'. out = rs @ rs' \<and> length rs' = length ps \<and>
       (\<forall>i<length ps. snd (process_item env d (length rs + i) (ps ! i)) = Inr (rs' ! i))"
proof (induction ps arbitrary: tr rs)
  case Nil
  then show ?case by simp
next
  case (Cons p ps)
  obtain evs oc where pi: "process_item env d (length rs) p = (evs, oc)"
    by (cases "process_item env d (length rs) p")
  show ?case
  proof (cases oc)
    case (Inl e)
    with Cons.prems pi show ?thesis by simp
  next
    case (Inr r)
    with Cons.prems pi have "inference_loop env d ps (tr @ evs) (rs @ [r]) = (tr', Inr out)"
      by simp
    from Cons.IH[OF this] obtain rs' where
      o: "out = (rs @ [r]) @ rs'" and l: "length rs' = length ps" and
      a: "\<forall>i<length ps. snd (process_item env d (length (rs @ [r]) + i) (ps ! i)) = Inr (rs' ! i)"
      by blast
    have "\<forall>i<length (p # ps). snd (process_item env d (length rs + i) ((p # ps) ! i)) = Inr ((r # rs') ! i)"
    proof (intro allI impI)
      fix i assume "i < length (p # ps)"
      then show "snd (process_item env d (length rs + i) ((p # ps) ! i)) = Inr ((r # rs') ! i)"
        using a pi Inr by (cases i) auto
    qed
    with o l show ?thesis by (intro exI[of _ "r # rs'"]) simp
  qed
qed

lemma inference_loop_raises:
  "\<forall>i<length pre. \<exists>r. snd (process_item env d (length rs + i) (pre ! i)) = Inr r \<Longrightarrow>
   snd (process_item env d (length rs + length pre) p) = Inl e \<Longrightarrow>
   snd (inference_loop env d (pre @ p # rest) tr rs) = Inl e"
proof (induction pre arbitrary: tr rs)
  case Nil
  then show ?case by (cases "process_item env d (length rs) p") auto
next
  case (Cons q pre)
  from Cons.prems(1) obtain r where r: "snd (process_item env d (length rs) q) = Inr r"
    by fastforce
  then obtain evs where pi: "process_item env d (length rs) q = (evs, Inr r)"
    by (cases "process_item env d (length rs) q") auto
  have a: "\<forall>i<length pre. \<exists>r'. snd (process_item env d (length (rs @ [r]) + i) (pre ! i)) = Inr r'"
  proof (intro allI impI)
    fix i assume "i < length pre"
    then have "Suc i < length (q # pre)" by simp
    from Cons.prems(1)[rule_format, OF this] show "\<exists>r'. snd (process_item env d (length (rs @ [r]) + i) (pre ! i)) = Inr r'"
      by simp
  qed
  have b: "snd (process_item env d (length (rs @ [r]) + length pre) p) = Inl e"
    using Cons.prems(2) by simp
  from Cons.IH[OF a b] show ?case using pi by simp
qed

subsection \<open>Arithmetic of the resize\<close>

lemma sq_hi: assumes "0 \<le> e" "e \<le> 1" shows "(1 + e) * (1 + e) \<le> 1 + 3 * (e::real)"
proof -
  have "e * e \<le> 1 * e" by (rule mult_right_mono) (use assms in auto)
  then show ?thesis by (simp add: algebra_simps)
qed

lemma sq_lo: "1 - 2 * e \<le> (1 - e) * (1 - (e::real))"
proof -
  have "0 \<le> e * e" by simp
  then show ?thesis by (simp add: algebra_simps)
qed

lemma quot_hi: assumes "0 \<le> e" "3 * e \<le> 1" shows "(1 + e) / (1 - e) \<le> 1 + 3 * (e::real)"
proof -
  have p: "0 < 1 - e" using assms by linarith
  have "e * (3 * e) \<le> e * 1" by (rule mult_left_mono) (use assms in auto)
  then have "1 + e \<le> (1 + 3 * e) * (1 - e)" by (simp add: algebra_simps)
  then show ?thesis using p by (simp add: pos_divide_le_eq)
qed

lemma quot_lo: assumes "0 \<le> e" shows "1 - 2 * e \<le> (1 - e) / (1 + (e::real))"
proof -
  have p: "0 < 1 + e" using assms by linarith
  have "0 \<le> e * e" by simp
  then have "(1 - 2 * e) * (1 + e) \<le> 1 - e" by (simp add: algebra_simps)
  then show ?thesis using p by (simp add: pos_le_divide_eq)
qed

lemma abs_err:
  fixes x z e :: real
  assumes "0 \<le> x" "\<bar>z - x\<bar> \<le> e * \<bar>x\<bar>"
  shows "(1 - e) * x \<le> z" and "z \<le> (1 + e) * x"
proof -
  from assms have "\<bar>z - x\<bar> \<le> e * x" by simp
  then show "(1 - e) * x \<le> z" and "z \<le> (1 + e) * x"
    by (auto simp: algebra_simps abs_le_iff)
qed

lemma rounded_bounds:
  fixes w h mw mh :: int
  assumes pos: "0 < w" "0 < h" "0 < mw" "0 < mh"
    and ok: "rounding_ok eps rnd w h mw mh"
  defines "r \<equiv> real_of_int w / real_of_int h"
  defines "ar \<equiv> rnd r"
  shows "0 < ar"
    and "(1 - 2 * eps) * (real_of_int mh * r) \<le> rnd (real_of_int mh * ar)"
    and "rnd (real_of_int mh * ar) \<le> (1 + 3 * eps) * (real_of_int mh * r)"
    and "(1 - 2 * eps) * (real_of_int mw / r) \<le> rnd (real_of_int mw / ar)"
    and "rnd (real_of_int mw / ar) \<le> (1 + 3 * eps) * (real_of_int mw / r)"
proof -
  have e0: "0 \<le> eps" and emw: "3 * eps * real_of_int mw \<le> 1" and emh: "3 * eps * real_of_int mh \<le> 1"
    and a1: "\<bar>ar - r\<bar> \<le> eps * \<bar>r\<bar>"
    and a2: "\<bar>rnd (real_of_int mh * ar) - real_of_int mh * ar\<bar> \<le> eps * \<bar>real_of_int mh * ar\<bar>"
    and a3: "\<bar>rnd (real_of_int mw / ar) - real_of_int mw / ar\<bar> \<le> eps * \<bar>real_of_int mw / ar\<bar>"
    using ok by (auto simp: rounding_ok_def accurate_def r_def ar_def)
  have MW: "1 \<le> real_of_int mw" and MH: "1 \<le> real_of_int mh" using pos by auto
  have "3 * eps * 1 \<le> 3 * eps * real_of_int mh" by (rule mult_left_mono) (use e0 MH in auto)
  with emh have e3: "3 * eps \<le> 1" by simp
  then have e1: "eps \<le> 1" "0 < 1 - eps" "0 < 1 + eps" using e0 by auto
  have rpos: "0 < r" using pos by (simp add: r_def)
  have ar_hi: "ar \<le> (1 + eps) * r" and ar_lo: "(1 - eps) * r \<le> ar"
    using a1 rpos by (auto simp: algebra_simps abs_le_iff)
  have "0 < (1 - eps) * r" using e1 rpos by simp
  with ar_lo show arpos: "0 < ar" by linarith
  have xpos: "0 \<le> real_of_int mh * ar" using MH arpos by simp
  have x_hi: "rnd (real_of_int mh * ar) \<le> (1 + eps) * (real_of_int mh * ar)"
    and x_lo: "(1 - eps) * (real_of_int mh * ar) \<le> rnd (real_of_int mh * ar)"
    using abs_err[OF xpos a2] by auto
  have mr: "0 \<le> real_of_int mh * r" using MH rpos by simp
  have "real_of_int mh * ar \<le> real_of_int mh * ((1 + eps) * r)"
    by (rule mult_left_mono) (use ar_hi MH in auto)
  then have "(1 + eps) * (real_of_int mh * ar) \<le> (1 + eps) * (real_of_int mh * ((1 + eps) * r))"
    by (rule mult_left_mono) (use e1 in auto)
  also have "\<dots> = ((1 + eps) * (1 + eps)) * (real_of_int mh * r)" by (simp add: algebra_simps)
  also have "\<dots> \<le> (1 + 3 * eps) * (real_of_int mh * r)"
    by (rule mult_right_mono) (use sq_hi[OF e0 e1(1)] mr in auto)
  finally show "rnd (real_of_int mh * ar) \<le> (1 + 3 * eps) * (real_of_int mh * r)"
    using x_hi by linarith
  have "real_of_int mh * ((1 - eps) * r) \<le> real_of_int mh * ar"
    by (rule mult_left_mono) (use ar_lo MH in auto)
  then have "(1 - eps) * (real_of_int mh * ((1 - eps) * r)) \<le> (1 - eps) * (real_of_int mh * ar)"
    by (rule mult_left_mono) (use e1 in auto)
  moreover have "(1 - eps) * (real_of_int mh * ((1 - eps) * r)) = ((1 - eps) * (1 - eps)) * (real_of_int mh * r)"
    by (simp add: algebra_simps)
  moreover have "(1 - 2 * eps) * (real_of_int mh * r) \<le> ((1 - eps) * (1 - eps)) * (real_of_int mh * r)"
    by (rule mult_right_mono) (use sq_lo[of eps] mr in auto)
  ultimately show "(1 - 2 * eps) * (real_of_int mh * r) \<le> rnd (real_of_int mh * ar)"
    using x_lo by linarith
  have ypos: "0 \<le> real_of_int mw / ar" using MW arpos by simp
  have y_hi: "rnd (real_of_int mw / ar) \<le> (1 + eps) * (real_of_int mw / ar)"
    and y_lo: "(1 - eps) * (real_of_int mw / ar) \<le> rnd (real_of_int mw / ar)"
    using abs_err[OF ypos a3] by auto
  have qr: "0 \<le> real_of_int mw / r" using MW rpos by simp
  have "real_of_int mw / ar \<le> real_of_int mw / ((1 - eps) * r)"
    by (rule divide_left_mono) (use ar_lo \<open>0 < (1 - eps) * r\<close> MW arpos in auto)
  then have "(1 + eps) * (real_of_int mw / ar) \<le> (1 + eps) * (real_of_int mw / ((1 - eps) * r))"
    by (rule mult_left_mono) (use e1 in auto)
  also have "\<dots> = ((1 + eps) / (1 - eps)) * (real_of_int mw / r)" by simp
  also have "\<dots> \<le> (1 + 3 * eps) * (real_of_int mw / r)"
    by (rule mult_right_mono) (use quot_hi[OF e0 e3] qr in auto)
  finally show "rnd (real_of_int mw / ar) \<le> (1 + 3 * eps) * (real_of_int mw / r)"
    using y_hi by linarith
  have "real_of_int mw / ((1 + eps) * r) \<le> real_of_int mw / ar"
    by (rule divide_left_mono) (use ar_hi MW arpos e1 rpos in auto)
  then have "(1 - eps) * (real_of_int mw / ((1 + eps) * r)) \<le> (1 - eps) * (real_of_int mw / ar)"
    by (rule mult_left_mono) (use e1 in auto)
  moreover have "(1 - eps) * (real_of_int mw / ((1 + eps) * r)) = ((1 - eps) / (1 + eps)) * (real_of_int mw / r)"
    by simp
  moreover have "(1 - 2 * eps) * (real_of_int mw / r) \<le> ((1 - eps) / (1 + eps)) * (real_of_int mw / r)"
    by (rule mult_right_mono) (use quot_lo[OF e0] qr in auto)
  ultimately show "(1 - 2 * eps) * (real_of_int mw / r) \<le> rnd (real_of_int mw / ar)"
    using y_lo by linarith
qed


lemma floor_facts:
  fixes w h mw mh :: int
  assumes pos: "0 < w" "0 < h" "0 < mw" "0 < mh"
    and ok: "rounding_ok eps rnd w h mw mh"
  defines "X \<equiv> \<lfloor>rnd (real_of_int mh * rnd (real_of_int w / real_of_int h))\<rfloor>"
  defines "Y \<equiv> \<lfloor>rnd (real_of_int mw / rnd (real_of_int w / real_of_int h))\<rfloor>"
  shows "new_dimensions rnd w h mw mh = Inr (min mw X, min mh Y)"
    and "0 \<le> X" and "0 \<le> Y"
    and "X * h \<le> (mh + 1) * w"
    and "Y * w \<le> (mw + 1) * h"
    and "rounding_fine eps w h mw mh \<Longrightarrow> mh * w \<le> (X + 1) * h"
    and "rounding_fine eps w h mw mh \<Longrightarrow> mw * h \<le> (Y + 1) * w"
proof -
  define r where "r = real_of_int w / real_of_int h"
  define x where "x = rnd (real_of_int mh * rnd r)"
  define y where "y = rnd (real_of_int mw / rnd r)"
  note b = rounded_bounds[OF pos ok, folded r_def, folded x_def y_def]
  have e0: "0 \<le> eps" and emw: "3 * eps * real_of_int mw \<le> 1" and emh: "3 * eps * real_of_int mh \<le> 1"
    using ok by (auto simp: rounding_ok_def)
  have W: "0 < real_of_int w" and H: "0 < real_of_int h"
    and MW: "1 \<le> real_of_int mw" and MH: "1 \<le> real_of_int mh" using pos by auto
  have "3 * eps * 1 \<le> 3 * eps * real_of_int mh" by (rule mult_left_mono) (use e0 MH in auto)
  with emh have e3: "3 * eps \<le> 1" by simp
  have mhr: "real_of_int mh * r * real_of_int h = real_of_int mh * real_of_int w"
    using H by (simp add: r_def)
  have mwr: "real_of_int mw / r * real_of_int w = real_of_int mw * real_of_int h"
    using H W by (simp add: r_def)
  have xlo: "(1 - 2 * eps) * (real_of_int mh * real_of_int w) \<le> x * real_of_int h"
  proof -
    have "(1 - 2 * eps) * (real_of_int mh * r) * real_of_int h \<le> x * real_of_int h"
      by (rule mult_right_mono) (use b(2) H in auto)
    moreover have "(1 - 2 * eps) * (real_of_int mh * r) * real_of_int h =
        (1 - 2 * eps) * (real_of_int mh * real_of_int w)" by (metis mhr mult.assoc)
    ultimately show ?thesis by simp
  qed
  have xhi: "x * real_of_int h \<le> (1 + 3 * eps) * (real_of_int mh * real_of_int w)"
  proof -
    have "x * real_of_int h \<le> (1 + 3 * eps) * (real_of_int mh * r) * real_of_int h"
      by (rule mult_right_mono) (use b(3) H in auto)
    moreover have "(1 + 3 * eps) * (real_of_int mh * r) * real_of_int h =
        (1 + 3 * eps) * (real_of_int mh * real_of_int w)" by (metis mhr mult.assoc)
    ultimately show ?thesis by simp
  qed
  have ylo: "(1 - 2 * eps) * (real_of_int mw * real_of_int h) \<le> y * real_of_int w"
  proof -
    have "(1 - 2 * eps) * (real_of_int mw / r) * real_of_int w \<le> y * real_of_int w"
      by (rule mult_right_mono) (use b(4) W in auto)
    moreover have "(1 - 2 * eps) * (real_of_int mw / r) * real_of_int w =
        (1 - 2 * eps) * (real_of_int mw * real_of_int h)" by (metis mwr mult.assoc)
    ultimately show ?thesis by simp
  qed
  have yhi: "y * real_of_int w \<le> (1 + 3 * eps) * (real_of_int mw * real_of_int h)"
  proof -
    have "y * real_of_int w \<le> (1 + 3 * eps) * (real_of_int mw / r) * real_of_int w"
      by (rule mult_right_mono) (use b(5) W in auto)
    moreover have "(1 + 3 * eps) * (real_of_int mw / r) * real_of_int w =
        (1 + 3 * eps) * (real_of_int mw * real_of_int h)" by (metis mwr mult.assoc)
    ultimately show ?thesis by simp
  qed
  have two: "0 \<le> 1 - 2 * eps" using e3 e0 by linarith
  have "0 \<le> (1 - 2 * eps) * (real_of_int mh * real_of_int w)"
    using two MH W by (intro mult_nonneg_nonneg) auto
  with xlo have "0 \<le> x * real_of_int h" by linarith
  then have x0: "0 \<le> x" using H by (simp add: zero_le_mult_iff)
  have "0 \<le> (1 - 2 * eps) * (real_of_int mw * real_of_int h)"
    using two MW H by (intro mult_nonneg_nonneg) auto
  with ylo have "0 \<le> y * real_of_int w" by linarith
  then have y0: "0 \<le> y" using W by (simp add: zero_le_mult_iff)
  have XY: "X = \<lfloor>x\<rfloor>" "Y = \<lfloor>y\<rfloor>" by (simp_all add: X_def Y_def x_def y_def r_def)
  have arne: "rnd r \<noteq> 0" using b(1) by simp
  have hne: "h \<noteq> 0" using pos by simp
  show "new_dimensions rnd w h mw mh = Inr (min mw X, min mh Y)"
    using arne hne x0 y0 
    by (simp add: new_dimensions_def Let_def py_int_def XY x_def y_def r_def)
  show "0 \<le> X" "0 \<le> Y" using x0 y0 by (simp_all add: XY)
  have Xle: "real_of_int X \<le> x" and Xgt: "x < real_of_int X + 1"
    and Yle: "real_of_int Y \<le> y" and Ygt: "y < real_of_int Y + 1"
    by (simp_all add: XY)
  have t1: "3 * eps * (real_of_int mh * real_of_int w) \<le> real_of_int w"
  proof -
    have "(3 * eps * real_of_int mh) * real_of_int w \<le> 1 * real_of_int w"
      by (rule mult_right_mono) (use emh W in auto)
    then show ?thesis by (simp add: mult.assoc)
  qed
  have t2: "3 * eps * (real_of_int mw * real_of_int h) \<le> real_of_int h"
  proof -
    have "(3 * eps * real_of_int mw) * real_of_int h \<le> 1 * real_of_int h"
      by (rule mult_right_mono) (use emw H in auto)
    then show ?thesis by (simp add: mult.assoc)
  qed
  have "real_of_int X * real_of_int h \<le> x * real_of_int h"
    by (rule mult_right_mono) (use Xle H in auto)
  with xhi t1 have "real_of_int X * real_of_int h \<le> (real_of_int mh + 1) * real_of_int w"
    by (simp add: algebra_simps)
  then have "real_of_int (X * h) \<le> real_of_int ((mh + 1) * w)" by simp
  then show "X * h \<le> (mh + 1) * w" by (simp only: of_int_le_iff)
  have "real_of_int Y * real_of_int w \<le> y * real_of_int w"
    by (rule mult_right_mono) (use Yle W in auto)
  with yhi t2 have "real_of_int Y * real_of_int w \<le> (real_of_int mw + 1) * real_of_int h"
    by (simp add: algebra_simps)
  then have "real_of_int (Y * w) \<le> real_of_int ((mw + 1) * h)" by simp
  then show "Y * w \<le> (mw + 1) * h" by (simp only: of_int_le_iff)
  {
    assume f: "rounding_fine eps w h mw mh"
    then have f1: "2 * eps * (real_of_int mw * real_of_int h) \<le> 1"
      and f2: "2 * eps * (real_of_int mh * real_of_int w) \<le> 1"
      by (simp_all add: rounding_fine_def)
    have "x * real_of_int h < (real_of_int X + 1) * real_of_int h"
      by (rule mult_strict_right_mono) (use Xgt H in auto)
    with xlo f2 have "real_of_int mh * real_of_int w - 1 < (real_of_int X + 1) * real_of_int h"
      by (simp add: algebra_simps)
    then have "real_of_int (mh * w - 1) < real_of_int ((X + 1) * h)" by simp
    then have "mh * w - 1 < (X + 1) * h" by (simp only: of_int_less_iff)
    then show "mh * w \<le> (X + 1) * h" by simp
    have "y * real_of_int w < (real_of_int Y + 1) * real_of_int w"
      by (rule mult_strict_right_mono) (use Ygt W in auto)
    with ylo f1 have "real_of_int mw * real_of_int h - 1 < (real_of_int Y + 1) * real_of_int w"
      by (simp add: algebra_simps)
    then have "real_of_int (mw * h - 1) < real_of_int ((Y + 1) * w)" by simp
    then have "mw * h - 1 < (Y + 1) * w" by (simp only: of_int_less_iff)
    then show "mw * h \<le> (Y + 1) * w" by simp
  }
qed

end
